theory Spec2Isabelle
  imports Main "HOL-Library.Log_Nat"
begin

section \<open>JavaScript numbers held by the counter\<close>

text \<open>
  The counter of \<^verbatim>\<open>src/index.js\<close> is a JavaScript Number, an IEEE 754 binary64 value.
  It starts at \<^verbatim>\<open>0\<close> and is only ever replaced by \<^verbatim>\<open>count + 1\<close>, \<^verbatim>\<open>count * 5\<close> or
  \<^verbatim>\<open>0\<close>, so it is a non-negative integer, \<^verbatim>\<open>Infinity\<close> or (were \<^verbatim>\<open>Infinity * 0\<close> ever
  computed) \<^verbatim>\<open>NaN\<close>. Negative numbers and fractions cannot arise and are left out of the type.
\<close>

datatype number = Fin nat | Infinity | NaN

text \<open>
  The result of an exact non-negative integer \<open>n\<close> as a binary64: round to nearest, ties
  to the even significand; 53 bits of significand; a rounded result of \<open>2 ^ 1024\<close> or more
  overflows to \<^verbatim>\<open>Infinity\<close>.
\<close>

definition round_double :: "nat \<Rightarrow> number" where
  "round_double n =
     (if n < 2 ^ 53 then Fin n
      else
        let e = floorlog 2 n - 53;
            q = n div 2 ^ e;
            r = n mod 2 ^ e;
            m = (if 2 ^ e < 2 * r \<or> (2 * r = 2 ^ e \<and> odd q) then q + 1 else q)
        in if m * 2 ^ e < 2 ^ 1024 then Fin (m * 2 ^ e) else Infinity)"

text \<open>The operators \<^verbatim>\<open>+\<close> and \<^verbatim>\<open>*\<close> on these values.\<close>

fun js_plus :: "number \<Rightarrow> number \<Rightarrow> number" where
  "js_plus NaN y = NaN"
| "js_plus x NaN = NaN"
| "js_plus Infinity y = Infinity"
| "js_plus x Infinity = Infinity"
| "js_plus (Fin a) (Fin b) = round_double (a + b)"

fun js_times :: "number \<Rightarrow> number \<Rightarrow> number" where
  "js_times NaN y = NaN"
| "js_times x NaN = NaN"
| "js_times Infinity (Fin b) = (if b = 0 then NaN else Infinity)"
| "js_times (Fin a) Infinity = (if a = 0 then NaN else Infinity)"
| "js_times Infinity Infinity = Infinity"
| "js_times (Fin a) (Fin b) = round_double (a * b)"

text \<open>
  The values the counter can hold: a non-negative integer that is a binary64 (rounding
  leaves it as it is) or \<^verbatim>\<open>Infinity\<close>.
\<close>

fun counter_value :: "number \<Rightarrow> bool" where
  "counter_value (Fin n) = (round_double n = Fin n)"
| "counter_value Infinity = True"
| "counter_value NaN = False"

section \<open>The rendering engine's state cell\<close>

text \<open>
  Modelled from the spec: the state cell and the update requester that \<^verbatim>\<open>React.useState\<close>
  hands to a component (the \<^verbatim>\<open>react\<close> package is a dependency, not part of the sources).
  A component instance owns one cell, empty before its first render. \<^verbatim>\<open>useState(initial)\<close>
  returns the cell's value, filling the cell with \<^verbatim>\<open>initial\<close> on the first render only,
  paired with the requester. The requester does not change the cell: it appends the requested
  value to the instance's queue of pending updates, which the next render pass applies.
\<close>

type_synonym requester = "number \<Rightarrow> number list \<Rightarrow> number list"

definition request_update :: requester where
  "request_update v queue = queue @ [v]"

definition useState :: "number \<Rightarrow> number option \<Rightarrow> (number \<times> requester) \<times> number option" where
  "useState initial cell =
     (let v = (case cell of None \<Rightarrow> initial | Some s \<Rightarrow> s)
      in ((v, request_update), Some v))"

section \<open>Render output\<close>

text \<open>
  What a component returns: text, a number in braces, or an element with its tag, its
  \<^verbatim>\<open>className\<close>, its \<^verbatim>\<open>onClick\<close> handler and its children. A handler takes the event
  object, of an arbitrary type \<open>'e\<close>, and transforms the queue of pending updates.
\<close>

type_synonym 'e handler = "'e \<Rightarrow> number list \<Rightarrow> number list"

datatype 'e vnode =
    Text string
  | Num number
  | Elem string "string option" "'e handler option" "'e vnode list"

type_synonym 'e component = "number option \<Rightarrow> 'e vnode \<times> number option"

section \<open>The components of src/index.js\<close>

text \<open>\<^verbatim>\<open>const handleReset = e => { setCount(0); }\<close>, with the \<^verbatim>\<open>setCount\<close> it closes over as a parameter.\<close>

definition handleReset :: "requester \<Rightarrow> 'e handler" where
  "handleReset setCount e = setCount (Fin 0)"

text \<open>
  \<^verbatim>\<open>function App()\<close>: one call is one render. \<open>count\<close> and \<open>setCount\<close> are the constants
  of that call, and the three handlers are closures over them.
\<close>

definition App :: "'e component" where
  "App cell =
     (let ((count, setCount), cell') = useState (Fin 0) cell
      in (Elem ''div'' (Some ''counter'') None
            [Elem ''h3'' None None [Text ''React Counter''],
             Elem ''p'' (Some ''click_desc'') None
               [Text ''Your click count is '',
                Elem ''span'' None None [Num count]],
             Elem ''div'' (Some ''button_container'') None
               [Elem ''button'' None (Some (\<lambda>_. setCount (js_plus count (Fin 1))))
                  [Text ''Add 1''],
                Elem ''button'' None (Some (\<lambda>_. setCount (js_times count (Fin 5))))
                  [Text ''Multiply by 5''],
                Elem ''button'' None (Some (handleReset setCount))
                  [Text ''Reset'']]],
          cell'))"

text \<open>\<^verbatim>\<open>function DumbComponent() { return "hey there"; }\<close>: no hook is called, the cell is untouched.\<close>

definition DumbComponent :: "'e component" where
  "DumbComponent cell = (Text ''hey there'', cell)"

section \<open>Mounting, render passes and clicks\<close>

text \<open>
  Modelled from the spec: a mounted component instance as the engine keeps it: the state
  cell, the updates requested since the last render pass, and the output committed to the
  instance's container (nothing before the first render).
\<close>

record 'e fiber =
  cell :: "number option"
  pending :: "number list"
  committed :: "'e vnode option"

text \<open>
  Modelled from the spec: a render pass applies the pending updates in order, each one
  replacing the cell's value, calls the component function and commits its output.
\<close>

definition render_pass :: "'e component \<Rightarrow> 'e fiber \<Rightarrow> 'e fiber" where
  "render_pass component inst =
     (let c = fold (\<lambda>v _. Some v) (pending inst) (cell inst);
          (out, c') = component c
      in \<lparr>cell = c', pending = [], committed = Some out\<rparr>)"

text \<open>
  Modelled from the spec: \<^verbatim>\<open>ReactDOM.render(<C />, container)\<close> for a container that the
  host document has: a fresh instance and its first render pass.
\<close>

definition mount :: "'e component \<Rightarrow> 'e fiber" where
  "mount component = render_pass component \<lparr>cell = None, pending = [], committed = None\<rparr>"

text \<open>The two mounts of the script, \<^verbatim>\<open>#root\<close> and \<^verbatim>\<open>#dumbParagraph\<close>.\<close>

definition rootElement :: "'e fiber" where
  "rootElement = mount App"

definition pElement :: "'e fiber" where
  "pElement = mount DumbComponent"

text \<open>What the user reads in committed output: the pieces of text and the numbers, in order.\<close>

datatype leaf = Str string | Val number

fun leaves :: "'e vnode \<Rightarrow> leaf list" where
  "leaves (Text s) = [Str s]"
| "leaves (Num n) = [Val n]"
| "leaves (Elem t c h kids) = concat (map leaves kids)"

text \<open>The elements carrying a given \<^verbatim>\<open>className\<close>, and the elements carrying a handler with what they show.\<close>

fun by_class :: "string \<Rightarrow> 'e vnode \<Rightarrow> 'e vnode list" where
  "by_class k (Text s) = []"
| "by_class k (Num n) = []"
| "by_class k (Elem t c h kids) =
     (if c = Some k then [Elem t c h kids] else []) @ concat (map (by_class k) kids)"

fun controls :: "'e vnode \<Rightarrow> (leaf list \<times> 'e handler) list" where
  "controls (Text s) = []"
| "controls (Num n) = []"
| "controls (Elem t c h kids) =
     (case h of None \<Rightarrow> [] | Some f \<Rightarrow> [(concat (map leaves kids), f)])
       @ concat (map controls kids)"

text \<open>The paragraph \<^verbatim>\<open>p.click_desc\<close> as displayed, and the whole container as displayed.\<close>

definition click_desc :: "'e fiber \<Rightarrow> leaf list" where
  "click_desc inst =
     (case committed inst of None \<Rightarrow> [] | Some t \<Rightarrow> concat (map leaves (by_class ''click_desc'' t)))"

definition content :: "'e fiber \<Rightarrow> leaf list" where
  "content inst = (case committed inst of None \<Rightarrow> [] | Some t \<Rightarrow> leaves t)"

text \<open>
  Modelled from the spec: event dispatch. The handler of the control labelled \<open>label\<close> is
  the one bound to it in the committed output, that is the closure made by the render that
  produced this output. The engine calls a handler with the event object and lets it run to
  completion (\<open>dispatch\<close>); activating a control dispatches its handler (\<open>fire\<close>), and
  then the next render pass runs (\<open>click\<close>).
\<close>

definition handler_of :: "string \<Rightarrow> 'e fiber \<Rightarrow> 'e handler option" where
  "handler_of label inst =
     (case committed inst of
        None \<Rightarrow> None
      | Some t \<Rightarrow> map_of (controls t) [Str label])"

definition dispatch :: "'e handler \<Rightarrow> 'e \<Rightarrow> 'e fiber \<Rightarrow> 'e fiber" where
  "dispatch h ev inst = inst\<lparr>pending := h ev (pending inst)\<rparr>"

definition fire :: "string \<Rightarrow> 'e \<Rightarrow> 'e fiber \<Rightarrow> 'e fiber" where
  "fire label ev inst =
     (case handler_of label inst of
        None \<Rightarrow> inst
      | Some h \<Rightarrow> dispatch h ev inst)"

definition click :: "'e component \<Rightarrow> string \<Rightarrow> 'e \<Rightarrow> 'e fiber \<Rightarrow> 'e fiber" where
  "click component label ev inst = render_pass component (fire label ev inst)"

text \<open>A sequence of clicks, each with its event object, a render pass completing after each.\<close>

fun clicks :: "'e component \<Rightarrow> (string \<times> 'e) list \<Rightarrow> 'e fiber \<Rightarrow> 'e fiber" where
  "clicks component [] inst = inst"
| "clicks component ((label, ev) # rest) inst = clicks component rest (click component label ev inst)"

text \<open>The instance as a completed render pass of \<open>App\<close> with counter value \<open>v\<close> leaves it.\<close>

definition settled :: "number \<Rightarrow> 'e fiber" where
  "settled v = \<lparr>cell = Some v, pending = [], committed = Some (fst (App (Some v)))\<rparr>"

section \<open>Rounding\<close>

lemma round_double_exact: "n < 2 ^ 53 \<Longrightarrow> round_double n = Fin n"
  by (simp add: round_double_def)

lemma round_double_limit: "round_double 9007199254740992 = Fin 9007199254740992"
  by (simp add: round_double_def compute_floorlog Let_def)

text \<open>Above \<open>2 ^ 53\<close> odd integers are ties and go to the even significand.\<close>

lemma round_double_ties:
  "round_double 9007199254740993 = Fin 9007199254740992"
  "round_double 9007199254740995 = Fin 9007199254740996"
  "round_double 11920928955078125 = Fin 11920928955078124"
  by (simp_all add: round_double_def compute_floorlog Let_def)

text \<open>Rounding never goes below half of the exact value.\<close>

lemma round_double_half:
  assumes "round_double m = Fin k"
  shows "m \<le> 2 * k"
proof (cases "m < 2 ^ 53")
  case True
  with assms show ?thesis by (simp add: round_double_def)
next
  case False
  define e where "e = floorlog 2 m - 53"
  define q where "q = m div 2 ^ e"
  define r where "r = m mod 2 ^ e"
  from False have pos: "0 < m" by (cases "m = 0") simp_all
  have "(2::nat) ^ (floorlog 2 m - 1) \<le> m"
    using floorlog_bounds [of m 2] pos by simp
  moreover have "(2::nat) ^ e \<le> 2 ^ (floorlog 2 m - 1)"
    unfolding e_def by (rule power_increasing) simp_all
  ultimately have "2 ^ e \<le> m" by (rule order_trans [rotated])
  then have "1 \<le> q" unfolding q_def by (simp add: div_greater_zero_iff Suc_le_eq)
  then have "2 ^ e \<le> q * 2 ^ e" by simp
  moreover have "r < 2 ^ e" unfolding r_def by simp
  moreover have "m = q * 2 ^ e + r" unfolding q_def r_def by (rule div_mult_mod_eq [symmetric])
  ultimately have low: "m \<le> 2 * (q * 2 ^ e)" by linarith
  from assms False have "k = q * 2 ^ e \<or> k = (q + 1) * 2 ^ e"
    by (auto simp add: round_double_def Let_def e_def q_def r_def split: if_splits)
  then have "q * 2 ^ e \<le> k" by auto
  with low show ?thesis by simp
qed

lemma plus_one_exact: "n < 2 ^ 53 \<Longrightarrow> js_plus (Fin n) (Fin 1) = Fin (n + 1)"
proof -
  assume "n < 2 ^ 53"
  then have "n + 1 < 2 ^ 53 \<or> n + 1 = 9007199254740992" by (simp add: less_Suc_eq [symmetric] less_Suc_eq_le)
  then show ?thesis
    using round_double_exact [of "n + 1"] round_double_limit by auto
qed

lemma times_five_exact: "n * 5 < 2 ^ 53 \<Longrightarrow> js_times (Fin n) (Fin 5) = Fin (n * 5)"
  by (simp add: round_double_exact)

lemma times_five_fixed: "js_times (Fin n) (Fin 5) = Fin n \<longleftrightarrow> n = 0"
proof
  assume "js_times (Fin n) (Fin 5) = Fin n"
  then have "n * 5 \<le> 2 * n" using round_double_half [of "n * 5" n] by simp
  then show "n = 0" by simp
next
  assume "n = 0"
  then show "js_times (Fin n) (Fin 5) = Fin n" by (simp add: round_double_exact)
qed

lemma floorlog_large: "\<not> n < 2 ^ 53 \<Longrightarrow> 54 \<le> floorlog 2 n"
  using floorlog_ge_SucI [of 2 53 n] by simp

lemma floorlog_succ_even:
  assumes "even n" "0 < n"
  shows "floorlog 2 (n + 1) = floorlog 2 n"
proof (rule antisym)
  define w where "w = floorlog 2 n"
  have "n < 2 ^ w" unfolding w_def using floorlog_bounds [of n 2] assms by simp
  moreover have "floorlog 2 n \<noteq> 0" using assms(2) floorlog_eq_zero_iff [of 2 n] by simp
  then have "0 < w" unfolding w_def by simp
  then have "even ((2::nat) ^ w)" by simp
  with assms have "n + 1 \<noteq> 2 ^ w" by (metis even_plus_one_iff)
  ultimately have "n + 1 < 2 ^ w" by simp
  then show "floorlog 2 (n + 1) \<le> floorlog 2 n"
    unfolding w_def by (simp add: floorlog_le_iff)
  show "floorlog 2 n \<le> floorlog 2 (n + 1)"
    by (rule floorlog_mono) simp
qed

text \<open>A double from \<open>2 ^ 53\<close> up is a multiple of its unit in the last place.\<close>

lemma double_form:
  assumes big: "\<not> n < 2 ^ 53" and same: "round_double n = Fin n"
  shows "n mod 2 ^ (floorlog 2 n - 53) = 0" and "n < 2 ^ 1024"
proof -
  define e where "e = floorlog 2 n - 53"
  define q where "q = n div 2 ^ e"
  define r where "r = n mod 2 ^ e"
  have split: "n = q * 2 ^ e + r" unfolding q_def r_def by (rule div_mult_mod_eq [symmetric])
  have r: "r < 2 ^ e" unfolding r_def by simp
  from big same have "(q * 2 ^ e = n \<or> (q + 1) * 2 ^ e = n) \<and> n < 2 ^ 1024"
    by (auto simp add: round_double_def Let_def e_def q_def r_def split: if_splits)
  then have up: "q * 2 ^ e = n \<or> (q + 1) * 2 ^ e = n" and small: "n < 2 ^ 1024" by simp_all
  from up split r have "r = 0" by (auto simp add: algebra_simps)
  then show "n mod 2 ^ (floorlog 2 n - 53) = 0" by (simp add: r_def e_def)
  from small show "n < 2 ^ 1024" .
qed

lemma succ_multiple_div: "2 \<le> b \<Longrightarrow> (q * b + 1) div b = (q::nat)"
proof -
  assume b: "2 \<le> b"
  then have "b \<noteq> 0" by simp
  then have "(q * b + 1) div b = q + 1 div b" by (rule div_mult_self3)
  also from b have "1 div b = 0" by simp
  finally show ?thesis by simp
qed
lemma succ_multiple_mod: "2 \<le> b \<Longrightarrow> (q * b + 1) mod b = (1::nat)"
proof -
  assume b: "2 \<le> b"
  have "(q * b + 1) mod b = 1 mod b" by (rule mod_mult_self3)
  also from b have "1 mod b = 1" by simp
  finally show ?thesis .
qed

text \<open>
  When \<^verbatim>\<open>n + 1\<close> gives back the double \<open>n\<close>: from \<open>2 ^ 54\<close> up the successor is less than
  half a unit away; between \<open>2 ^ 53\<close> and \<open>2 ^ 54\<close> it is a tie, which goes to \<open>n\<close> when
  the significand of \<open>n\<close> is even, that is when 4 divides \<open>n\<close>.
\<close>

lemma plus_one_fixed:
  assumes same: "round_double n = Fin n"
  shows "round_double (n + 1) = Fin n \<longleftrightarrow> 2 ^ 54 \<le> n \<or> (2 ^ 53 \<le> n \<and> 4 dvd n)"
proof (cases "n < 2 ^ 53")
  case True
  then have "js_plus (Fin n) (Fin 1) = Fin (n + 1)" by (rule plus_one_exact)
  with True show ?thesis by simp
next
  case False
  define e where "e = floorlog 2 n - 53"
  define q where "q = n div 2 ^ e"
  from False have fl: "54 \<le> floorlog 2 n" by (rule floorlog_large)
  then have e1: "1 \<le> e" unfolding e_def by simp
  have r0: "n mod 2 ^ e = 0" and small: "n < 2 ^ 1024"
    unfolding e_def using double_form [OF False same] by simp_all
  have n: "n = q * 2 ^ e" unfolding q_def using r0 by (simp add: mod_eq_0_iff_dvd)
  from e1 have two: "(2::nat) \<le> 2 ^ e"
    using power_increasing [of 1 e "2::nat"] by simp
  from e1 have "even ((2::nat) ^ e)" by simp
  with n have ev: "even n" by simp
  from False have pos: "0 < n" by (cases "n = 0") simp_all
  have fl': "floorlog 2 (n + 1) - 53 = e"
    unfolding e_def using floorlog_succ_even [OF ev pos] by simp
  have q': "(n + 1) div 2 ^ e = q"
    by (subst n) (rule succ_multiple_div [OF two])
  have r': "(n + 1) mod 2 ^ e = 1"
    by (subst n) (rule succ_multiple_mod [OF two])
  have tie: "2 * (1::nat) = 2 ^ e \<longleftrightarrow> e = 1"
    using e1 power_increasing [of 2 e "2::nat"] by (cases "e = 1") auto
  have up: "round_double (n + 1) =
      (if e = 1 \<and> odd q
       then (if (q + 1) * 2 ^ e < 2 ^ 1024 then Fin ((q + 1) * 2 ^ e) else Infinity)
       else Fin n)"
  proof -
    from False have big': "\<not> n + 1 < 2 ^ 53" by simp
    from two have low: "\<not> (2::nat) ^ e < 2 * 1" by simp
    from small have small': "q * 2 ^ e < 2 ^ 1024" using n by simp
    show ?thesis
      unfolding round_double_def Let_def fl' q' r'
      apply (simp only: big' low tie if_False if_True simp_thms)
      apply (cases "e = 1 \<and> odd q")
       apply (simp_all only: if_False if_True simp_thms small small' n [symmetric])
      done
  qed
  have e_iff: "e = 1 \<longleftrightarrow> n < 2 ^ 54"
  proof -
    have "n < 2 ^ 54 \<longleftrightarrow> floorlog 2 n \<le> 54" by (simp add: floorlog_le_iff)
    with fl show ?thesis unfolding e_def by auto
  qed
  have four: "e = 1 \<Longrightarrow> 4 dvd n \<longleftrightarrow> even q"
    using n by simp
  have differ: "(q + 1) * 2 ^ e \<noteq> n" using n by simp
  show ?thesis
  proof (cases "e = 1 \<and> odd q")
    case True
    with up differ have "round_double (n + 1) \<noteq> Fin n" by auto
    moreover from True e_iff four have "\<not> (2 ^ 54 \<le> n \<or> (2 ^ 53 \<le> n \<and> 4 dvd n))" by auto
    ultimately show ?thesis by simp
  next
    case other: False
    with up have "round_double (n + 1) = Fin n" by auto
    moreover from other e_iff four False have "2 ^ 54 \<le> n \<or> (2 ^ 53 \<le> n \<and> 4 dvd n)"
      by (auto simp add: not_less)
    ultimately show ?thesis by simp
  qed
qed

text \<open>Conversely, a multiple of its unit in the last place below \<open>2 ^ 1024\<close> is a double.\<close>

lemma double_intro:
  assumes "n mod 2 ^ (floorlog 2 n - 53) = 0" and "n < 2 ^ 1024"
  shows "round_double n = Fin n"
proof (cases "n < 2 ^ 53")
  case True
  then show ?thesis by (rule round_double_exact)
next
  case False
  define e where "e = floorlog 2 n - 53"
  from assms(1) have r0: "n mod 2 ^ e = 0" by (simp add: e_def)
  then have n: "n div 2 ^ e * 2 ^ e = n" by (simp add: mod_eq_0_iff_dvd)
  from r0 have low: "\<not> (2::nat) ^ e < 2 * (n mod 2 ^ e)"
    and tie: "2 * (n mod 2 ^ e) \<noteq> 2 ^ e" by simp_all
  show ?thesis
    unfolding round_double_def Let_def e_def [symmetric]
    by (simp only: False low tie n assms(2) if_False if_True simp_thms)
qed

text \<open>What rounding returns is a double: rounding it again changes nothing.\<close>

lemma round_double_idem:
  assumes "round_double n = Fin k"
  shows "round_double k = Fin k"
proof (cases "n < 2 ^ 53")
  case True
  with assms have "k = n" by (simp add: round_double_def)
  with True show ?thesis by (simp add: round_double_exact)
next
  case False
  define e where "e = floorlog 2 n - 53"
  define q where "q = n div 2 ^ e"
  from False have fl: "54 \<le> floorlog 2 n" by (rule floorlog_large)
  from False have pos: "0 < n" by (cases "n = 0") simp_all
  have "n < 2 ^ floorlog 2 n" using floorlog_bounds [of n 2] pos by simp
  also from fl have "floorlog 2 n = 53 + e" unfolding e_def by simp
  finally have "n < 2 ^ 53 * 2 ^ e" by (simp add: power_add)
  then have q: "q < 2 ^ 53" unfolding q_def by (rule less_mult_imp_div_less)
  from assms False have k: "k = q * 2 ^ e \<or> k = (q + 1) * 2 ^ e" and small: "k < 2 ^ 1024"
    by (auto simp add: round_double_def Let_def e_def q_def split: if_splits)
  have "k mod 2 ^ (floorlog 2 k - 53) = 0"
  proof (cases "k = 2 ^ 53 * 2 ^ e")
    case True
    then have kp: "k = 1 * 2 ^ (53 + e)" by (simp add: power_add)
    have "floorlog 2 k = floorlog 2 1 + (53 + e)"
      unfolding kp by (rule floorlog_power) simp_all
    then have "floorlog 2 k - 53 \<le> 53 + e" by (simp add: compute_floorlog)
    then have "(2::nat) ^ (floorlog 2 k - 53) dvd 2 ^ (53 + e)" by (rule le_imp_power_dvd)
    with kp show ?thesis by (simp add: mod_eq_0_iff_dvd)
  next
    case False
    from k consider "k = q * 2 ^ e" | "k = (q + 1) * 2 ^ e" by blast
    then have "\<exists>m. k = m * 2 ^ e \<and> m < 2 ^ 53"
    proof cases
      case 1
      with q show ?thesis by blast
    next
      case 2
      with False have "q + 1 \<noteq> 2 ^ 53" by auto
      with q have "q + 1 < 2 ^ 53" by simp
      with 2 show ?thesis by blast
    qed
    then obtain m where km: "k = m * 2 ^ e" and m: "m < 2 ^ 53" by blast
    then have "k < 2 ^ 53 * 2 ^ e" by simp
    then have "k < 2 ^ (53 + e)" by (simp add: power_add)
    then have "floorlog 2 k \<le> 53 + e" by (simp add: floorlog_le_iff)
    then have "floorlog 2 k - 53 \<le> e" by simp
    then have "(2::nat) ^ (floorlog 2 k - 53) dvd 2 ^ e" by (rule le_imp_power_dvd)
    then have "2 ^ (floorlog 2 k - 53) dvd k" unfolding km by (rule dvd_mult)
    then show ?thesis by (simp add: mod_eq_0_iff_dvd)
  qed
  then show ?thesis using small by (rule double_intro)
qed

lemma counter_value_round: "counter_value (round_double n)"
proof (cases "round_double n")
  case (Fin k)
  then show ?thesis using round_double_idem [of n k] by simp
next
  case Infinity
  then show ?thesis by simp
next
  case NaN
  then show ?thesis by (simp add: round_double_def Let_def split: if_splits)
qed

lemma counter_value_plus: "counter_value v \<Longrightarrow> counter_value (js_plus v (Fin 1))"
  by (cases v) (simp_all add: counter_value_round)

lemma counter_value_times: "counter_value v \<Longrightarrow> counter_value (js_times v (Fin 5))"
  by (cases v) (simp_all add: counter_value_round)

lemma plus_one_unchanged:
  "js_plus (Fin n) (Fin 1) = Fin n \<longleftrightarrow>
     round_double n = Fin n \<and> (2 ^ 54 \<le> n \<or> (2 ^ 53 \<le> n \<and> 4 dvd n))"
proof
  assume same: "js_plus (Fin n) (Fin 1) = Fin n"
  then have "round_double (n + 1) = Fin n" by simp
  then have double: "round_double n = Fin n" by (rule round_double_idem)
  with same show "round_double n = Fin n \<and> (2 ^ 54 \<le> n \<or> (2 ^ 53 \<le> n \<and> 4 dvd n))"
    using plus_one_fixed [OF double] by simp
next
  assume "round_double n = Fin n \<and> (2 ^ 54 \<le> n \<or> (2 ^ 53 \<le> n \<and> 4 dvd n))"
  then show "js_plus (Fin n) (Fin 1) = Fin n"
    using plus_one_fixed [of n] by simp
qed

lemma clicks_append:
  "clicks component (xs @ ys) inst = clicks component ys (clicks component xs inst)"
  by (induction xs arbitrary: inst) auto

section \<open>Render passes and clicks of the counter\<close>

lemma apply_pending: "fold (\<lambda>v _. Some v) q c = (if q = [] then c else Some (last q))"
  by (induction q arbitrary: c) simp_all

lemma render_pass_App:
  "render_pass App inst =
     settled (case fold (\<lambda>v _. Some v) (pending inst) (cell inst) of None \<Rightarrow> Fin 0 | Some v \<Rightarrow> v)"
  by (simp add: render_pass_def settled_def App_def useState_def Let_def split: option.split)

lemma mount_App: "mount App = settled (Fin 0)"
  by (simp add: mount_def render_pass_App)

lemma handler_of_add:
  "handler_of ''Add 1'' (settled v) = Some (\<lambda>_. request_update (js_plus v (Fin 1)))"
  by (simp add: handler_of_def settled_def App_def useState_def Let_def)

lemma handler_of_multiply:
  "handler_of ''Multiply by 5'' (settled v) = Some (\<lambda>_. request_update (js_times v (Fin 5)))"
  by (simp add: handler_of_def settled_def App_def useState_def Let_def)

lemma handler_of_reset:
  "handler_of ''Reset'' (settled v) = Some (handleReset request_update)"
  by (simp add: handler_of_def settled_def App_def useState_def Let_def)

lemma pending_settled: "pending (settled v) = []"
  by (simp add: settled_def)

lemma cell_settled: "cell (settled v) = Some v"
  by (simp add: settled_def)

lemma fire_add: "fire ''Add 1'' ev (settled v) = (settled v)\<lparr>pending := [js_plus v (Fin 1)]\<rparr>"
  by (simp add: fire_def handler_of_add dispatch_def pending_settled request_update_def)

lemma fire_multiply:
  "fire ''Multiply by 5'' ev (settled v) = (settled v)\<lparr>pending := [js_times v (Fin 5)]\<rparr>"
  by (simp add: fire_def handler_of_multiply dispatch_def pending_settled request_update_def)

lemma fire_reset: "fire ''Reset'' ev (settled v) = (settled v)\<lparr>pending := [Fin 0]\<rparr>"
  by (simp add: fire_def handler_of_reset dispatch_def pending_settled request_update_def
      handleReset_def)

lemma click_add: "click App ''Add 1'' ev (settled v) = settled (js_plus v (Fin 1))"
  by (simp add: click_def fire_add render_pass_App)

lemma click_multiply: "click App ''Multiply by 5'' ev (settled v) = settled (js_times v (Fin 5))"
  by (simp add: click_def fire_multiply render_pass_App)

lemma click_reset: "click App ''Reset'' ev (settled v) = settled (Fin 0)"
  by (simp add: click_def fire_reset render_pass_App)

lemma click_desc_settled: "click_desc (settled v) = [Str ''Your click count is '', Val v]"
  by (simp add: click_desc_def settled_def App_def useState_def Let_def)

text \<open>Clicking "Add 1" \<open>k\<close> times adds \<open>k\<close> exactly, up to \<open>2 ^ 53\<close>.\<close>

lemma add_clicks:
  "n + k \<le> 2 ^ 53 \<Longrightarrow>
     clicks App (replicate k (''Add 1'', ev)) (settled (Fin n)) = settled (Fin (n + k))"
proof (induction k arbitrary: n)
  case 0
  show ?case by simp
next
  case (Suc k)
  from Suc.prems have n: "n < 2 ^ 53" and rest: "(n + 1) + k \<le> 2 ^ 53" by simp_all
  show ?case
    using Suc.IH [OF rest] plus_one_exact [OF n] by (simp add: click_add)
qed

text \<open>Clicking "Multiply by 5" \<open>k\<close> times multiplies by \<open>5 ^ k\<close> exactly, below \<open>2 ^ 53\<close>.\<close>

lemma multiply_clicks:
  "n * 5 ^ k < 2 ^ 53 \<Longrightarrow>
     clicks App (replicate k (''Multiply by 5'', ev)) (settled (Fin n)) = settled (Fin (n * 5 ^ k))"
proof (induction k arbitrary: n)
  case 0
  show ?case by simp
next
  case (Suc k)
  from Suc.prems have big: "(n * 5) * 5 ^ k < 2 ^ 53" by (simp add: mult.assoc)
  then have "n * 5 \<le> (n * 5) * 5 ^ k" by simp
  with big have small: "n * 5 < 2 ^ 53" by (rule le_less_trans [rotated])
  show ?case
    using Suc.IH [OF big] times_five_exact [OF small]
    by (simp add: click_multiply mult.assoc)
qed

lemma handler_of_other:
  "label \<noteq> ''Add 1'' \<Longrightarrow> label \<noteq> ''Multiply by 5'' \<Longrightarrow> label \<noteq> ''Reset'' \<Longrightarrow>
     handler_of label (settled v) = None"
  by (auto simp add: handler_of_def settled_def App_def useState_def Let_def)

lemma click_other:
  "label \<noteq> ''Add 1'' \<Longrightarrow> label \<noteq> ''Multiply by 5'' \<Longrightarrow> label \<noteq> ''Reset'' \<Longrightarrow>
     click App label ev (settled v) = settled v"
  by (simp add: click_def fire_def handler_of_other render_pass_App pending_settled cell_settled)

text \<open>
  Whatever is clicked, and in whatever order, the instance stays settled and the counter
  stays a double that is a non-negative integer or \<^verbatim>\<open>Infinity\<close>; \<^verbatim>\<open>NaN\<close> never arises.
\<close>

lemma click_counter_value:
  assumes "counter_value v"
  shows "\<exists>w. click App label ev (settled v) = settled w \<and> counter_value w"
proof -
  consider "label = ''Add 1''" | "label = ''Multiply by 5''" | "label = ''Reset''"
    | "label \<noteq> ''Add 1''" "label \<noteq> ''Multiply by 5''" "label \<noteq> ''Reset''"
    by blast
  then show ?thesis
  proof cases
    case 1
    with assms show ?thesis using counter_value_plus [of v] by (auto simp add: click_add)
  next
    case 2
    with assms show ?thesis using counter_value_times [of v] by (auto simp add: click_multiply)
  next
    case 3
    have "counter_value (Fin 0)" by (simp add: round_double_exact)
    with 3 show ?thesis by (auto simp add: click_reset)
  next
    case 4
    with assms show ?thesis by (auto simp add: click_other)
  qed
qed

lemma clicks_counter_value:
  "counter_value v \<Longrightarrow> \<exists>w. clicks App cs (settled v) = settled w \<and> counter_value w"
proof (induction cs arbitrary: v)
  case Nil
  then show ?case by auto
next
  case (Cons c cs)
  obtain label ev where c: "c = (label, ev)" by (cases c)
  from click_counter_value [OF Cons.prems, of label ev]
  obtain u where u: "click App label ev (settled v) = settled u" "counter_value u" by blast
  from Cons.IH [OF u(2)] show ?case by (simp add: c u(1))
qed

lemma reachable_counter_value:
  "\<exists>w. clicks App cs rootElement = settled w \<and> counter_value w"
  using clicks_counter_value [of "Fin 0" cs]
  by (simp add: rootElement_def mount_App round_double_exact)

section \<open>The claims\<close>

text \<open>
  C1. A handler body that issues two update requests, each computed from the count captured by
  its render (\<^verbatim>\<open>setCount(count + 1)\<close> twice in one invocation), has the net effect of one
  increment after the next render pass: whatever the queue holds, the "Add 1" closure of a
  render with count \<open>v\<close> requests \<open>v + 1\<close>, so running its body twice requests \<open>v + 1\<close>
  twice and the render pass shows what a single click shows.
\<close>

theorem stale_closure_single_increment:
  assumes "handler_of ''Add 1'' (settled v) = Some h"
  shows "h ev q = q @ [js_plus v (Fin 1)]
       \<and> pending (dispatch (\<lambda>e. h e \<circ> h e) ev (settled v)) = [js_plus v (Fin 1), js_plus v (Fin 1)]
       \<and> render_pass App (dispatch (\<lambda>e. h e \<circ> h e) ev (settled v)) = settled (js_plus v (Fin 1))
       \<and> render_pass App (dispatch (\<lambda>e. h e \<circ> h e) ev (settled v)) = click App ''Add 1'' ev (settled v)"
proof -
  from assms have h: "h = (\<lambda>_. request_update (js_plus v (Fin 1)))"
    by (simp add: handler_of_add)
  show ?thesis
    by (simp add: h dispatch_def pending_settled request_update_def render_pass_App
        cell_settled click_add)
qed

text \<open>C1 at the displayed value 3: the next render shows 4, not 5.\<close>

theorem stale_closure_from_three:
  "handler_of ''Add 1'' (settled (Fin 3) :: unit fiber) = Some (\<lambda>_. request_update (js_plus (Fin 3) (Fin 1)))
   \<and> click_desc (render_pass App (dispatch
         (\<lambda>e. (\<lambda>_. request_update (js_plus (Fin 3) (Fin 1))) e \<circ> (\<lambda>_. request_update (js_plus (Fin 3) (Fin 1))) e)
         () (settled (Fin 3))))
       = [Str ''Your click count is '', Val (Fin 4)]
   \<and> Fin 4 \<noteq> Fin 5"
proof -
  have h: "handler_of ''Add 1'' (settled (Fin 3) :: unit fiber)
             = Some (\<lambda>_. request_update (js_plus (Fin 3) (Fin 1)))"
    by (rule handler_of_add)
  show ?thesis
    using h stale_closure_single_increment [OF h, where ev = "()" and q = "[]"]
    by (simp add: click_desc_settled round_double_exact)
qed

text \<open>
  The largest safe integer plus one, \<open>2 ^ 53\<close>, is reached from a fresh mount in 75 clicks:
  for each base-5 digit \<open>d\<close> of \<open>2 ^ 53\<close>, "Multiply by 5" once and "Add 1" \<open>d\<close> times.
  And \<open>5 ^ 22\<close> is reached by "Add 1" once and "Multiply by 5" 22 times.
\<close>

lemma safe_limit_reached:
  "clicks App
     (concat (map (\<lambda>d. (''Multiply by 5'', ()) # replicate d (''Add 1'', ()))
        [3, 3, 4, 2, 1, 0, 4, 2, 4, 2, 3, 0, 3, 3, 2, 0, 3, 2, 0, 2, 4, 3, 2]))
     rootElement
   = settled (Fin 9007199254740992)"
  by (simp add: rootElement_def mount_App clicks_append add_clicks click_add click_multiply
      round_double_exact)

lemma power_of_five_reached:
  "clicks App ((''Add 1'', ()) # replicate 22 (''Multiply by 5'', ())) rootElement
   = settled (Fin 2384185791015625)"
  using multiply_clicks [of 1 22 "()"]
  by (simp add: rootElement_def mount_App click_add round_double_exact)

text \<open>
  C3, as stated: for every displayed value \<open>v\<close>, "Add 1" leads to the displayed value
  \<open>v + 1\<close>. This fails at \<open>v = 2 ^ 53 = 9007199254740992\<close>: \<^verbatim>\<open>count + 1\<close> is rounded to
  the nearest binary64, which is \<open>2 ^ 53\<close> again, so the displayed value does not change.
\<close>

theorem add_one_counterexample:
  "pending (fire ''Add 1'' () (settled (Fin 9007199254740992) :: unit fiber)) = [Fin 9007199254740992]
   \<and> click_desc (click App ''Add 1'' () (settled (Fin 9007199254740992) :: unit fiber))
       = [Str ''Your click count is '', Val (Fin 9007199254740992)]
   \<and> click_desc (click App ''Add 1'' () (settled (Fin 9007199254740992) :: unit fiber))
       \<noteq> [Str ''Your click count is '', Val (Fin (9007199254740992 + 1))]"
  by (simp add: fire_add click_add click_desc_settled round_double_def compute_floorlog Let_def)

text \<open>
  C3, amended: for every displayed value that is an integer \<open>n\<close> with \<open>0 \<le> n < 2 ^ 53\<close>,
  activating "Add 1" requests the update to \<open>n + 1\<close> and the displayed value after the next
  render pass is \<open>n + 1\<close>. For every displayed value \<open>v\<close> whatever, the requested and then
  displayed value is the binary64 result of \<^verbatim>\<open>v + 1\<close>.
\<close>

theorem add_one_safe_range:
  assumes "n < 2 ^ 53"
  shows "pending (fire ''Add 1'' ev (settled (Fin n))) = [Fin (n + 1)]
       \<and> click App ''Add 1'' ev (settled (Fin n)) = settled (Fin (n + 1))
       \<and> click_desc (click App ''Add 1'' ev (settled (Fin n)))
           = [Str ''Your click count is '', Val (Fin (n + 1))]
       \<and> pending (fire ''Add 1'' ev (settled v)) = [js_plus v (Fin 1)]
       \<and> click_desc (click App ''Add 1'' ev (settled v))
           = [Str ''Your click count is '', Val (js_plus v (Fin 1))]"
  using plus_one_exact [OF assms]
  by (simp add: fire_add click_add click_desc_settled)

theorem add_one_safe_range_witness:
  "(9007199254740991 :: nat) < 2 ^ 53
   \<and> pending (fire ''Add 1'' () (settled (Fin 9007199254740991) :: unit fiber))
       = [Fin 9007199254740992]
   \<and> click_desc (click App ''Add 1'' () (settled (Fin 9007199254740991) :: unit fiber))
       = [Str ''Your click count is '', Val (Fin 9007199254740992)]
   \<and> click_desc (click App ''Add 1'' () (settled Infinity :: unit fiber))
       = [Str ''Your click count is '', Val Infinity]"
proof -
  have small: "(9007199254740991 :: nat) < 2 ^ 53" by simp
  show ?thesis
    using small add_one_safe_range [OF small, where ev = "()" and v = Infinity]
    by (simp add: click_desc_settled)
qed

text \<open>
  C4, as stated: for every displayed value \<open>v\<close>, "Multiply by 5" leads to the displayed
  value \<open>v \<times> 5\<close>. This fails at \<open>v = 5 ^ 22 = 2384185791015625\<close>: the product \<open>5 ^ 23\<close> is odd
  and above \<open>2 ^ 53\<close>, so \<^verbatim>\<open>count * 5\<close> is rounded to \<open>11920928955078124\<close>.
\<close>

theorem multiply_counterexample:
  "pending (fire ''Multiply by 5'' () (settled (Fin 2384185791015625) :: unit fiber))
       = [Fin 11920928955078124]
   \<and> click_desc (click App ''Multiply by 5'' () (settled (Fin 2384185791015625) :: unit fiber))
       = [Str ''Your click count is '', Val (Fin 11920928955078124)]
   \<and> click_desc (click App ''Multiply by 5'' () (settled (Fin 2384185791015625) :: unit fiber))
       \<noteq> [Str ''Your click count is '', Val (Fin (2384185791015625 * 5))]"
  by (simp add: fire_multiply click_multiply click_desc_settled round_double_def
      compute_floorlog Let_def)

text \<open>
  C4, amended: for every displayed value that is an integer \<open>n \<ge> 0\<close> with \<open>n \<times> 5 < 2 ^ 53\<close>,
  activating "Multiply by 5" requests the update to \<open>n \<times> 5\<close> and the displayed value after the
  next render pass is \<open>n \<times> 5\<close>. For every displayed value \<open>v\<close> whatever, the requested and
  then displayed value is the binary64 result of \<^verbatim>\<open>v * 5\<close>.
\<close>

theorem multiply_safe_range:
  assumes "n * 5 < 2 ^ 53"
  shows "pending (fire ''Multiply by 5'' ev (settled (Fin n))) = [Fin (n * 5)]
       \<and> click App ''Multiply by 5'' ev (settled (Fin n)) = settled (Fin (n * 5))
       \<and> click_desc (click App ''Multiply by 5'' ev (settled (Fin n)))
           = [Str ''Your click count is '', Val (Fin (n * 5))]
       \<and> pending (fire ''Multiply by 5'' ev (settled v)) = [js_times v (Fin 5)]
       \<and> click_desc (click App ''Multiply by 5'' ev (settled v))
           = [Str ''Your click count is '', Val (js_times v (Fin 5))]"
  using times_five_exact [OF assms]
  by (simp add: fire_multiply click_multiply click_desc_settled)

theorem multiply_safe_range_witness:
  "(3 :: nat) * 5 < 2 ^ 53
   \<and> pending (fire ''Multiply by 5'' () (settled (Fin 3) :: unit fiber)) = [Fin 15]
   \<and> click_desc (click App ''Multiply by 5'' () (settled (Fin 3) :: unit fiber))
       = [Str ''Your click count is '', Val (Fin 15)]
   \<and> click_desc (click App ''Multiply by 5'' () (settled Infinity :: unit fiber))
       = [Str ''Your click count is '', Val Infinity]"
proof -
  have small: "(3 :: nat) * 5 < 2 ^ 53" by simp
  show ?thesis
    using small multiply_safe_range [OF small, where ev = "()" and v = Infinity]
    by (simp add: click_desc_settled)
qed

text \<open>
  C5. For every displayed value \<open>v\<close>, zero included, activating "Reset" requests the update
  to 0 and the displayed value after the next render pass is 0; activating "Reset" a second
  time gives the same instance as activating it once.
\<close>

theorem reset_to_zero_idempotent:
  "pending (fire ''Reset'' ev (settled v)) = [Fin 0]
   \<and> click App ''Reset'' ev (settled v) = settled (Fin 0)
   \<and> click_desc (click App ''Reset'' ev (settled v)) = [Str ''Your click count is '', Val (Fin 0)]
   \<and> click App ''Reset'' ev' (click App ''Reset'' ev (settled v)) = click App ''Reset'' ev (settled v)"
  by (simp add: fire_reset click_reset click_desc_settled)

theorem reset_to_zero_idempotent_witness:
  "click_desc (click App ''Reset'' () (settled (Fin 0) :: unit fiber))
       = [Str ''Your click count is '', Val (Fin 0)]
   \<and> click_desc (click App ''Reset'' () (settled (Fin 15) :: unit fiber))
       = [Str ''Your click count is '', Val (Fin 0)]
   \<and> click App ''Reset'' () (click App ''Reset'' () (settled (Fin 15) :: unit fiber))
       = click App ''Reset'' () (settled (Fin 15))"
  using reset_to_zero_idempotent [where v = "Fin 0" and ev = "()" and ev' = "()"]
    reset_to_zero_idempotent [where v = "Fin 15" and ev = "()" and ev' = "()"]
  by (simp add: click_desc_settled)

lemma mount_DumbComponent:
  "mount DumbComponent = \<lparr>cell = None, pending = [], committed = Some (Text ''hey there'')\<rparr>"
  by (simp add: mount_def render_pass_def DumbComponent_def)

text \<open>
  C6. On the first mount of the counter the state cell is created with 0 and the first render
  shows "Your click count is " followed by 0. The initial value is used on the first render
  only: \<^verbatim>\<open>useState(0)\<close> on a cell that holds \<open>v\<close> returns \<open>v\<close>, and a further render pass
  with no update pending shows \<open>v\<close> again.
\<close>

theorem first_mount_shows_zero:
  "cell (rootElement :: 'e fiber) = Some (Fin 0)
   \<and> click_desc (rootElement :: 'e fiber) = [Str ''Your click count is '', Val (Fin 0)]
   \<and> fst (fst (useState (Fin 0) None)) = Fin 0
   \<and> fst (fst (useState (Fin 0) (Some v))) = v
   \<and> snd (useState (Fin 0) (Some v)) = Some v
   \<and> render_pass App (settled v :: 'e fiber) = settled v"
  by (simp add: rootElement_def mount_App cell_settled click_desc_settled useState_def
      Let_def render_pass_App pending_settled)

theorem first_mount_shows_zero_witness:
  "click_desc (rootElement :: unit fiber) = [Str ''Your click count is '', Val (Fin 0)]
   \<and> fst (fst (useState (Fin 0) (Some (Fin 7)))) = Fin 7
   \<and> click_desc (render_pass App (settled (Fin 7) :: unit fiber))
       = [Str ''Your click count is '', Val (Fin 7)]"
  using first_mount_shows_zero [where 'e = unit and v = "Fin 7"]
  by (simp add: click_desc_settled)

text \<open>
  C7. From a fresh mount, a render pass completing after each click: the counter shows 0;
  after "Add 1" three times it shows 3; after "Multiply by 5" it shows 15; after "Reset" it
  shows 0.
\<close>

theorem scenario_A:
  "click_desc (rootElement :: 'e fiber) = [Str ''Your click count is '', Val (Fin 0)]
   \<and> click_desc (clicks App [(''Add 1'', e1), (''Add 1'', e2), (''Add 1'', e3)]
         (rootElement :: 'e fiber))
       = [Str ''Your click count is '', Val (Fin 3)]
   \<and> click_desc (clicks App
         [(''Add 1'', e1), (''Add 1'', e2), (''Add 1'', e3), (''Multiply by 5'', e4)]
         (rootElement :: 'e fiber))
       = [Str ''Your click count is '', Val (Fin 15)]
   \<and> click_desc (clicks App
         [(''Add 1'', e1), (''Add 1'', e2), (''Add 1'', e3), (''Multiply by 5'', e4),
          (''Reset'', e5)]
         (rootElement :: 'e fiber))
       = [Str ''Your click count is '', Val (Fin 0)]"
  by (simp add: rootElement_def mount_App click_add click_multiply click_reset
      click_desc_settled round_double_exact)

theorem scenario_A_witness:
  "click_desc (clicks App [] (rootElement :: unit fiber))
       = [Str ''Your click count is '', Val (Fin 0)]
   \<and> click_desc (clicks App [(''Add 1'', ()), (''Add 1'', ()), (''Add 1'', ())]
         (rootElement :: unit fiber))
       = [Str ''Your click count is '', Val (Fin 3)]
   \<and> click_desc (clicks App
         [(''Add 1'', ()), (''Add 1'', ()), (''Add 1'', ()), (''Multiply by 5'', ())]
         (rootElement :: unit fiber))
       = [Str ''Your click count is '', Val (Fin 15)]
   \<and> click_desc (clicks App
         [(''Add 1'', ()), (''Add 1'', ()), (''Add 1'', ()), (''Multiply by 5'', ()),
          (''Reset'', ())]
         (rootElement :: unit fiber))
       = [Str ''Your click count is '', Val (Fin 0)]"
  using scenario_A [where 'e = unit and ?e1.0 = "()" and ?e2.0 = "()" and ?e3.0 = "()"
      and ?e4.0 = "()" and ?e5.0 = "()"]
  by simp

text \<open>
  C8, as stated: the only handler activation whose requested value equals the current value
  is "Reset" at zero. This fails for "Multiply by 5" at zero, which requests \<open>0 \<times> 5 = 0\<close>, and
  for "Add 1" at \<open>2 ^ 53\<close>, which requests \<open>2 ^ 53\<close> again.
\<close>

theorem unchanged_request_counterexample:
  "pending (fire ''Multiply by 5'' () (settled (Fin 0) :: unit fiber)) = [Fin 0]
   \<and> pending (fire ''Add 1'' () (settled (Fin 9007199254740992) :: unit fiber))
       = [Fin 9007199254740992]"
  by (simp add: fire_multiply fire_add round_double_def compute_floorlog Let_def)

text \<open>
  C8, amended: every handler activation requests a value, namely \<^verbatim>\<open>count + 1\<close>,
  \<^verbatim>\<open>count * 5\<close> or 0 in binary64 arithmetic; for every value \<open>v\<close> the counter can hold, the
  requested value equals the current one exactly in these cases: "Reset" when \<open>v\<close> is zero;
  "Multiply by 5" when \<open>v\<close> is zero or \<^verbatim>\<open>Infinity\<close>; "Add 1" when \<open>v\<close> is \<^verbatim>\<open>Infinity\<close>, or at
  least \<open>2 ^ 54\<close>, or a multiple of 4 from \<open>2 ^ 53\<close> up. So below \<open>2 ^ 53\<close> the only such
  activations are "Reset" at zero and "Multiply by 5" at zero.
\<close>

theorem unchanged_request_characterised:
  assumes "counter_value v"
  shows "pending (fire ''Add 1'' ev (settled v)) = [js_plus v (Fin 1)]
       \<and> (pending (fire ''Add 1'' ev (settled v)) = [v] \<longleftrightarrow>
            (case v of Fin n \<Rightarrow> 2 ^ 54 \<le> n \<or> (2 ^ 53 \<le> n \<and> 4 dvd n)
                     | Infinity \<Rightarrow> True | NaN \<Rightarrow> False))
       \<and> pending (fire ''Multiply by 5'' ev (settled v)) = [js_times v (Fin 5)]
       \<and> (pending (fire ''Multiply by 5'' ev (settled v)) = [v] \<longleftrightarrow> v = Fin 0 \<or> v = Infinity)
       \<and> pending (fire ''Reset'' ev (settled v)) = [Fin 0]
       \<and> (pending (fire ''Reset'' ev (settled v)) = [v] \<longleftrightarrow> v = Fin 0)"
proof (cases v)
  case (Fin n)
  with assms have "round_double n = Fin n" by simp
  with Fin show ?thesis
    using plus_one_unchanged [of n] times_five_fixed [of n]
    by (auto simp add: fire_add fire_multiply fire_reset)
next
  case Infinity
  then show ?thesis by (simp add: fire_add fire_multiply fire_reset)
next
  case NaN
  with assms show ?thesis by simp
qed

theorem unchanged_request_characterised_witness:
  "counter_value (Fin 9007199254740992)
   \<and> pending (fire ''Add 1'' () (settled (Fin 9007199254740992) :: unit fiber))
       = [Fin 9007199254740992]
   \<and> counter_value (Fin 3)
   \<and> pending (fire ''Add 1'' () (settled (Fin 3) :: unit fiber)) = [Fin 4]
   \<and> pending (fire ''Multiply by 5'' () (settled (Fin 3) :: unit fiber)) = [Fin 15]
   \<and> pending (fire ''Reset'' () (settled (Fin 3) :: unit fiber)) = [Fin 0]
   \<and> counter_value (Fin 0)
   \<and> pending (fire ''Add 1'' () (settled (Fin 0) :: unit fiber)) \<noteq> [Fin 0]
   \<and> pending (fire ''Multiply by 5'' () (settled (Fin 0) :: unit fiber)) = [Fin 0]
   \<and> pending (fire ''Reset'' () (settled (Fin 0) :: unit fiber)) = [Fin 0]
   \<and> pending (fire ''Multiply by 5'' () (settled Infinity :: unit fiber)) = [Infinity]"
proof -
  have big: "counter_value (Fin 9007199254740992)" by (simp add: round_double_limit)
  have three: "counter_value (Fin 3)" by (simp add: round_double_exact)
  have zero: "counter_value (Fin 0)" by (simp add: round_double_exact)
  have inf: "counter_value Infinity" by simp
  show ?thesis
    using big three zero
      unchanged_request_characterised [OF big, where ev = "()"]
      unchanged_request_characterised [OF three, where ev = "()"]
      unchanged_request_characterised [OF zero, where ev = "()"]
      unchanged_request_characterised [OF inf, where ev = "()"]
    by (simp add: round_double_exact round_double_ties)
qed

text \<open>
  C9. The static text component takes no argument of its own, reads and changes no state
  (the cell goes through untouched), binds no handler and returns the same output on every
  invocation; mounted, its container holds exactly the text "hey there" and no control, so
  no activation does anything.
\<close>

theorem static_text_component:
  "(DumbComponent :: 'e component) c = (Text ''hey there'', c)
   \<and> fst ((DumbComponent :: 'e component) c) = fst ((DumbComponent :: 'e component) c')
   \<and> controls (fst ((DumbComponent :: 'e component) c)) = []
   \<and> committed (pElement :: 'e fiber) = Some (Text ''hey there'')
   \<and> content (pElement :: 'e fiber) = [Str ''hey there'']
   \<and> handler_of label (pElement :: 'e fiber) = None
   \<and> click DumbComponent label ev (pElement :: 'e fiber) = pElement"
  by (simp add: DumbComponent_def pElement_def mount_DumbComponent content_def handler_of_def
      click_def fire_def render_pass_def)

theorem static_text_component_witness:
  "fst ((DumbComponent :: unit component) None) = fst ((DumbComponent :: unit component) (Some (Fin 1)))
   \<and> content (pElement :: unit fiber) = [Str ''hey there'']
   \<and> click DumbComponent ''Reset'' () (pElement :: unit fiber) = pElement"
  using static_text_component [where 'e = unit and label = "''Reset''" and ev = "()"
      and c = None and c' = "Some (Fin 1)"]
  by blast

text \<open>
  C10. Each handler bound by a render with count \<open>v\<close> requests a value that depends on
  \<open>v\<close> alone: called with any event object \<open>e\<close> on any queue \<open>q\<close> of pending updates, it
  appends \<open>v + 1\<close>, \<open>v \<times> 5\<close> or 0 respectively; so two invocations from the same rendered
  snapshot with different event objects request the same next state.
\<close>

theorem handlers_ignore_event:
  "map_option (\<lambda>h. h e q) (handler_of ''Add 1'' (settled v)) = Some (q @ [js_plus v (Fin 1)])
   \<and> map_option (\<lambda>h. h e q) (handler_of ''Multiply by 5'' (settled v))
       = Some (q @ [js_times v (Fin 5)])
   \<and> map_option (\<lambda>h. h e q) (handler_of ''Reset'' (settled v)) = Some (q @ [Fin 0])
   \<and> handleReset setCount e = handleReset setCount e'
   \<and> fire ''Add 1'' e (settled v) = fire ''Add 1'' e' (settled v)
   \<and> fire ''Multiply by 5'' e (settled v) = fire ''Multiply by 5'' e' (settled v)
   \<and> fire ''Reset'' e (settled v) = fire ''Reset'' e' (settled v)
   \<and> click App ''Add 1'' e (settled v) = click App ''Add 1'' e' (settled v)
   \<and> click App ''Multiply by 5'' e (settled v) = click App ''Multiply by 5'' e' (settled v)
   \<and> click App ''Reset'' e (settled v) = click App ''Reset'' e' (settled v)"
  by (simp add: handler_of_add handler_of_multiply handler_of_reset request_update_def
      handleReset_def fire_add fire_multiply fire_reset click_add click_multiply click_reset)

theorem handlers_ignore_event_witness:
  "pending (fire ''Add 1'' True (settled (Fin 3))) = pending (fire ''Add 1'' False (settled (Fin 3)))
   \<and> map_option (\<lambda>h. h True [Fin 9]) (handler_of ''Multiply by 5'' (settled (Fin 3)))
       = Some [Fin 9, Fin 15]
   \<and> map_option (\<lambda>h. h False [Fin 9]) (handler_of ''Reset'' (settled (Fin 3)))
       = Some [Fin 9, Fin 0]"
  using handlers_ignore_event [where e = True and e' = False and v = "Fin 3" and q = "[Fin 9]"]
    handlers_ignore_event [where e = False and e' = True and v = "Fin 3" and q = "[Fin 9]"]
  by (simp add: round_double_exact)

end
